theory Spec2Isabelle
  imports
    Main
    "HOL-Library.Word"
    "HOL-Library.Signed_Division"
    "HOL-Library.Monad_Syntax"
begin

unbundle bit_operations_syntax

section \<open>C arithmetic used by \<open>animations.cpp\<close>\<close>

text \<open>
  A row of a symbol is a \<open>uint8_t\<close>.  In the expression
  \<open>(row << shift) | (row >> (8 - shift))\<close> both operands of each shift are of type
  \<open>int\<close> (the row by integral promotion), and the result is converted back to
  \<open>uint8_t\<close> by the assignment to \<open>out[r]\<close>.  The width of \<open>int\<close> is fixed by the
  platform (16 bits on AVR boards, 32 bits on ARM boards and on a PC); it is the parameter
  \<open>w\<close> below.  The language only guarantees \<open>16 \<le> w\<close>.

  A shift whose right operand is negative or not smaller than the width of the promoted
  left operand has undefined behaviour, and so has a left shift of a signed value whose
  result is not representable in \<open>int\<close>.  Undefined behaviour is the value \<open>None\<close>.
  A right shift of a negative value rounds down, as the compilers for these boards do; a
  promoted row is never negative.
\<close>

type_synonym uint8_t = "8 word"

definition promote :: "uint8_t \<Rightarrow> int" where
  "promote row = uint row"

definition to_uint8 :: "int \<Rightarrow> uint8_t" where
  "to_uint8 k = word_of_int k"

definition c_shl :: "nat \<Rightarrow> int \<Rightarrow> int \<Rightarrow> int option" where
  "c_shl w a n =
     (if n < 0 \<or> int w \<le> n then None
      else if a < 0 \<or> 2 ^ (w - 1) \<le> a * 2 ^ nat n then None
      else Some (a * 2 ^ nat n))"

definition c_shr :: "nat \<Rightarrow> int \<Rightarrow> int \<Rightarrow> int option" where
  "c_shr w a n =
     (if n < 0 \<or> int w \<le> n then None
      else Some (a div 2 ^ nat n))"

text \<open>
  An array parameter \<open>uint8_t a[8]\<close> is a list; an access outside the list is undefined
  behaviour.
\<close>

definition array_get :: "'a list \<Rightarrow> int \<Rightarrow> 'a option" where
  "array_get xs i = (if 0 \<le> i \<and> i < int (length xs) then Some (xs ! nat i) else None)"

definition array_set :: "'a list \<Rightarrow> int \<Rightarrow> 'a \<Rightarrow> 'a list option" where
  "array_set xs i v = (if 0 \<le> i \<and> i < int (length xs) then Some (xs[nat i := v]) else None)"

section \<open>The two shifts on separate input and output arrays\<close>

text \<open>
  The right-hand side of \<open>out[r] = (row << shift) | (row >> (8 - shift))\<close>.  The
  subtraction \<open>8 - shift\<close> can only overflow for a negative \<open>shift\<close>, where the left shift
  is undefined already.
\<close>

definition rotate_row :: "nat \<Rightarrow> uint8_t \<Rightarrow> int \<Rightarrow> uint8_t option" where
  "rotate_row w row shift =
     do {
       a \<leftarrow> c_shl w (promote row) shift;
       b \<leftarrow> c_shr w (promote row) (8 - shift);
       Some (to_uint8 (a OR b))
     }"

text \<open>\<open>for (int r = 0; r < 8; r++) { uint8_t row = in[r]; out[r] = ...; }\<close>\<close>

function shiftSymbolHorizontal_loop ::
  "nat \<Rightarrow> uint8_t list \<Rightarrow> int \<Rightarrow> int \<Rightarrow> uint8_t list \<Rightarrow> uint8_t list option" where
  "shiftSymbolHorizontal_loop w inp shift r outp =
     (if r < 8 then
        do {
          row \<leftarrow> array_get inp r;
          v \<leftarrow> rotate_row w row shift;
          outp' \<leftarrow> array_set outp r v;
          shiftSymbolHorizontal_loop w inp shift (r + 1) outp'
        }
      else Some outp)"
  by pat_completeness auto
termination
  by (relation "measure (\<lambda>(w, inp, shift, r, outp). nat (8 - r))") auto

definition shiftSymbolHorizontal ::
  "nat \<Rightarrow> uint8_t list \<Rightarrow> uint8_t list \<Rightarrow> int \<Rightarrow> uint8_t list option" where
  "shiftSymbolHorizontal w inp outp shift = shiftSymbolHorizontal_loop w inp shift 0 outp"

text \<open>
  \<open>shift = ((shift % 8) + 8) % 8;\<close>  The operator \<open>%\<close> of C truncates towards zero: it is
  \<open>smod\<close>, not \<open>mod\<close>.  No intermediate value leaves the interval from \<open>-7\<close> to \<open>15\<close>, so
  nothing overflows whatever the width of \<open>int\<close>.
\<close>

definition normalize_shift :: "int \<Rightarrow> int" where
  "normalize_shift shift = ((shift smod 8) + 8) smod 8"

text \<open>\<open>for (int r = 0; r < 8; r++) { out[r] = in[(r - shift + 8) % 8]; }\<close>\<close>

function shiftSymbolVertical_loop ::
  "uint8_t list \<Rightarrow> int \<Rightarrow> int \<Rightarrow> uint8_t list \<Rightarrow> uint8_t list option" where
  "shiftSymbolVertical_loop inp shift r outp =
     (if r < 8 then
        do {
          v \<leftarrow> array_get inp ((r - shift + 8) smod 8);
          outp' \<leftarrow> array_set outp r v;
          shiftSymbolVertical_loop inp shift (r + 1) outp'
        }
      else Some outp)"
  by pat_completeness auto
termination
  by (relation "measure (\<lambda>(inp, shift, r, outp). nat (8 - r))") auto

definition shiftSymbolVertical ::
  "uint8_t list \<Rightarrow> uint8_t list \<Rightarrow> int \<Rightarrow> uint8_t list option" where
  "shiftSymbolVertical inp outp shift =
     shiftSymbolVertical_loop inp (normalize_shift shift) 0 outp"

section \<open>The two shifts on buffers in memory\<close>

text \<open>
  The parameters \<open>const uint8_t in[8]\<close> and \<open>uint8_t out[8]\<close> are pointers: the functions
  read and write the caller's memory.  Memory is a map from addresses to bytes, a buffer is
  the address of its first byte, and \<open>p[i]\<close> is the byte at \<open>p + i\<close>, inside the buffer only
  for \<open>0 \<le> i < 8\<close>.  Each iteration reads the memory the iterations before it have
  written, so this model also says what happens when the buffers overlap.
\<close>

type_synonym memory = "nat \<Rightarrow> uint8_t"

definition mem_get :: "memory \<Rightarrow> nat \<Rightarrow> int \<Rightarrow> uint8_t option" where
  "mem_get m p i = (if 0 \<le> i \<and> i < 8 then Some (m (p + nat i)) else None)"

definition mem_set :: "memory \<Rightarrow> nat \<Rightarrow> int \<Rightarrow> uint8_t \<Rightarrow> memory option" where
  "mem_set m p i v = (if 0 \<le> i \<and> i < 8 then Some (m(p + nat i := v)) else None)"

function shiftSymbolHorizontal_mem_loop ::
  "nat \<Rightarrow> nat \<Rightarrow> nat \<Rightarrow> int \<Rightarrow> int \<Rightarrow> memory \<Rightarrow> memory option" where
  "shiftSymbolHorizontal_mem_loop w inp outp shift r m =
     (if r < 8 then
        do {
          row \<leftarrow> mem_get m inp r;
          v \<leftarrow> rotate_row w row shift;
          m' \<leftarrow> mem_set m outp r v;
          shiftSymbolHorizontal_mem_loop w inp outp shift (r + 1) m'
        }
      else Some m)"
  by pat_completeness auto
termination
  by (relation "measure (\<lambda>(w, inp, outp, shift, r, m). nat (8 - r))") auto

definition shiftSymbolHorizontal_mem ::
  "nat \<Rightarrow> nat \<Rightarrow> nat \<Rightarrow> int \<Rightarrow> memory \<Rightarrow> memory option" where
  "shiftSymbolHorizontal_mem w inp outp shift m =
     shiftSymbolHorizontal_mem_loop w inp outp shift 0 m"

function shiftSymbolVertical_mem_loop ::
  "nat \<Rightarrow> nat \<Rightarrow> int \<Rightarrow> int \<Rightarrow> memory \<Rightarrow> memory option" where
  "shiftSymbolVertical_mem_loop inp outp shift r m =
     (if r < 8 then
        do {
          v \<leftarrow> mem_get m inp ((r - shift + 8) smod 8);
          m' \<leftarrow> mem_set m outp r v;
          shiftSymbolVertical_mem_loop inp outp shift (r + 1) m'
        }
      else Some m)"
  by pat_completeness auto
termination
  by (relation "measure (\<lambda>(inp, outp, shift, r, m). nat (8 - r))") auto

definition shiftSymbolVertical_mem ::
  "nat \<Rightarrow> nat \<Rightarrow> int \<Rightarrow> memory \<Rightarrow> memory option" where
  "shiftSymbolVertical_mem inp outp shift m =
     shiftSymbolVertical_mem_loop inp outp (normalize_shift shift) 0 m"

text \<open>The eight bytes of the buffer at \<open>p\<close>, and the addresses they occupy.\<close>

definition symbol_at :: "memory \<Rightarrow> nat \<Rightarrow> uint8_t list" where
  "symbol_at m p = map (\<lambda>i. m (p + i)) [0..<8]"

definition buffer :: "nat \<Rightarrow> nat set" where
  "buffer p = {p..<p + 8}"

section \<open>Lit pixels\<close>

text \<open>
  A pixel is lit when its bit is set: column \<open>c\<close> of a row is bit \<open>c\<close> of the byte.
\<close>

definition popcount :: "uint8_t \<Rightarrow> nat" where
  "popcount row = length (filter (bit row) [0..<8])"

definition lit_pixels :: "uint8_t list \<Rightarrow> nat" where
  "lit_pixels rows = sum_list (map popcount rows)"

declare shiftSymbolHorizontal_loop.simps [simp del]
declare shiftSymbolVertical_loop.simps [simp del]
declare shiftSymbolHorizontal_mem_loop.simps [simp del]
declare shiftSymbolVertical_mem_loop.simps [simp del]

section \<open>One row of the horizontal shift\<close>

lemma shl_bound:
  assumes "16 \<le> w" "n \<le> 7"
  shows "uint (row :: uint8_t) * 2 ^ n < 2 ^ (w - 1)"
proof -
  have "uint row < 2 ^ 8" using uint_bounded [of row] by simp
  moreover have "(2::int) ^ n \<le> 2 ^ 7" using assms(2) by (intro power_increasing) simp_all
  ultimately have "uint row * 2 ^ n < 2 ^ 8 * 2 ^ 7"
    by (intro mult_less_le_imp_less) simp_all
  also have "\<dots> = (2::int) ^ 15" by simp
  also have "\<dots> \<le> 2 ^ (w - 1)" using assms(1) by (intro power_increasing) simp_all
  finally show ?thesis .
qed

lemma c_shl_row:
  assumes "16 \<le> w" "0 \<le> shift" "shift \<le> 7"
  shows "c_shl w (promote row) shift = Some (uint row * 2 ^ nat shift)"
proof -
  have "uint row * 2 ^ nat shift < 2 ^ (w - 1)"
    using assms by (intro shl_bound) simp_all
  then show ?thesis using assms by (simp add: c_shl_def promote_def)
qed

lemma c_shr_row:
  assumes "16 \<le> w" "0 \<le> shift" "shift \<le> 7"
  shows "c_shr w (promote row) (8 - shift) = Some (uint row div 2 ^ (8 - nat shift))"
proof -
  have "nat (8 - shift) = 8 - nat shift" using assms by simp
  then show ?thesis using assms by (simp add: c_shr_def promote_def)
qed

lemma to_uint8_rotl:
  assumes "n \<le> 7"
  shows "to_uint8 (uint row * 2 ^ n OR uint row div 2 ^ (8 - n)) = word_rotl n row"
proof (rule bit_word_eqI)
  fix k assume "k < LENGTH(8)"
  then show "bit (to_uint8 (uint row * 2 ^ n OR uint row div 2 ^ (8 - n))) k =
             bit (word_rotl n row) k"
    using assms
    by (simp add: to_uint8_def bit_simps flip: push_bit_eq_mult drop_bit_eq_div)
      (auto simp: bit_simps mod_if ac_simps not_less not_le le_diff_conv
            dest: bit_imp_le_length)
qed

lemma rotate_row_rotl:
  assumes "16 \<le> w" "0 \<le> shift" "shift \<le> 7"
  shows "rotate_row w row shift = Some (word_rotl (nat shift) row)"
proof -
  have "nat shift \<le> 7" using assms by simp
  then show ?thesis
    using assms by (simp add: rotate_row_def c_shl_row c_shr_row to_uint8_rotl)
qed

section \<open>The loops on arrays\<close>

lemma take_update_upt:
  assumes "n < length ys" "n < m"
  shows "take (Suc n) (ys[n := F n]) @ map F [Suc n..<m] = take n ys @ map F [n..<m]"
proof -
  have "take (Suc n) (ys[n := F n]) = take n ys @ [F n]"
    using assms by (simp add: take_Suc_conv_app_nth)
  moreover have "[n..<m] = n # [Suc n..<m]"
    using assms by (simp add: upt_conv_Cons)
  ultimately show ?thesis by simp
qed

lemma map_nth_upt_8:
  assumes "length xs = 8"
  shows "map (\<lambda>k. g (xs ! k)) [0..<8] = map g xs"
proof -
  have "map g (map ((!) xs) [0..<length xs]) = map g xs"
    by (simp only: map_nth)
  then show ?thesis using assms by (simp add: comp_def del: upt_Suc)
qed

lemma shiftSymbolHorizontal_loop_eq:
  assumes "\<And>row. rotate_row w row shift = Some (g row)"
    and "length inp = 8" "length outp = 8" "0 \<le> r" "r \<le> 8"
  shows "shiftSymbolHorizontal_loop w inp shift r outp =
           Some (take (nat r) outp @ map (\<lambda>k. g (inp ! k)) [nat r..<8])"
  using assms
proof (induction w inp shift r outp rule: shiftSymbolHorizontal_loop.induct)
  case (1 w inp shift r outp)
  let ?F = "\<lambda>k. g (inp ! k)"
  show ?case
  proof (cases "r < 8")
    case False
    with 1 show ?thesis by (subst shiftSymbolHorizontal_loop.simps) simp
  next
    case True
    let ?n = "nat r"
    let ?out' = "outp[?n := ?F ?n]"
    have n: "?n < 8" "nat (r + 1) = Suc ?n" using True 1 by simp_all
    have get: "array_get inp r = Some (inp ! ?n)"
      using True 1 by (simp add: array_get_def)
    have set: "array_set outp r (?F ?n) = Some ?out'"
      using True 1 by (simp add: array_set_def)
    have "shiftSymbolHorizontal_loop w inp shift (r + 1) ?out' =
            Some (take (nat (r + 1)) ?out' @ map ?F [nat (r + 1)..<8])"
      using True 1 get set by (intro "1.IH") simp_all
    also have "take (nat (r + 1)) ?out' @ map ?F [nat (r + 1)..<8] =
                 take ?n outp @ map ?F [?n..<8]"
      using n 1 take_update_upt [of ?n outp 8 ?F] by simp
    finally show ?thesis
      using True get set 1(2)
      by (subst shiftSymbolHorizontal_loop.simps) simp
  qed
qed

lemma shiftSymbolHorizontal_eq:
  assumes "16 \<le> w" "0 \<le> shift" "shift \<le> 7" "length inp = 8" "length outp = 8"
  shows "shiftSymbolHorizontal w inp outp shift = Some (map (word_rotl (nat shift)) inp)"
proof -
  have "shiftSymbolHorizontal_loop w inp shift 0 outp =
          Some (take (nat 0) outp @ map (\<lambda>k. word_rotl (nat shift) (inp ! k)) [nat 0..<8])"
    using assms by (intro shiftSymbolHorizontal_loop_eq rotate_row_rotl) simp_all
  then show ?thesis
    using assms by (simp add: shiftSymbolHorizontal_def map_nth_upt_8 del: upt_Suc)
qed

lemma smod_8_nonneg: "0 \<le> k \<Longrightarrow> k smod 8 = k mod (8::int)"
  by (simp add: smod_int_alt_def sgn_if)

lemma smod_8_neg: "k < 0 \<Longrightarrow> k smod 8 = - ((- k) mod (8::int))"
  by (simp add: smod_int_alt_def sgn_if)

lemma normalize_shift_mod: "normalize_shift shift = shift mod 8"
proof (cases "0 \<le> shift")
  case True
  then show ?thesis by (simp add: normalize_shift_def smod_8_nonneg)
next
  case False
  then have "shift smod 8 = - ((- shift) mod 8)" by (simp add: smod_8_neg)
  moreover have "0 \<le> - ((- shift) mod 8) + 8"
    using pos_mod_bound [of 8 "- shift"] by linarith
  ultimately have "normalize_shift shift = (- ((- shift) mod 8) + 8) mod 8"
    by (simp add: normalize_shift_def smod_8_nonneg)
  also have "\<dots> = shift mod 8" by presburger
  finally show ?thesis .
qed

lemma row_index:
  assumes "0 \<le> r" "r < 8" "0 \<le> s" "s \<le> 7"
  shows "(r - s + 8) smod 8 = (r - s) mod (8::int)"
proof -
  have "(r - s + 8) smod 8 = (r - s + 8) mod 8"
    using assms by (intro smod_8_nonneg) simp
  then show ?thesis by simp
qed

lemma shiftSymbolVertical_loop_eq:
  assumes "length inp = 8" "length outp = 8" "0 \<le> s" "s \<le> 7" "0 \<le> r" "r \<le> 8"
  shows "shiftSymbolVertical_loop inp s r outp =
           Some (take (nat r) outp @ map (\<lambda>k. inp ! nat ((int k - s) mod 8)) [nat r..<8])"
  using assms
proof (induction inp s r outp rule: shiftSymbolVertical_loop.induct)
  case (1 inp s r outp)
  let ?F = "\<lambda>k. inp ! nat ((int k - s) mod 8)"
  show ?case
  proof (cases "r < 8")
    case False
    with 1 show ?thesis by (subst shiftSymbolVertical_loop.simps) simp
  next
    case True
    let ?n = "nat r"
    let ?out' = "outp[?n := ?F ?n]"
    have n: "?n < 8" "nat (r + 1) = Suc ?n" "int ?n = r" using True 1 by simp_all
    have "0 \<le> (r - s) mod 8" "(r - s) mod 8 < 8" by simp_all
    then have get: "array_get inp ((r - s + 8) smod 8) = Some (?F ?n)"
      using True 1 by (simp add: array_get_def row_index)
    have set: "array_set outp r (?F ?n) = Some ?out'"
      using True 1 by (simp add: array_set_def)
    have "shiftSymbolVertical_loop inp s (r + 1) ?out' =
            Some (take (nat (r + 1)) ?out' @ map ?F [nat (r + 1)..<8])"
      using True 1 get set by (intro "1.IH") simp_all
    also have "take (nat (r + 1)) ?out' @ map ?F [nat (r + 1)..<8] =
                 take ?n outp @ map ?F [?n..<8]"
      using n 1 take_update_upt [of ?n outp 8 ?F] by simp
    finally show ?thesis
      using True get set
      by (subst shiftSymbolVertical_loop.simps) simp
  qed
qed

lemma shiftSymbolVertical_eq:
  assumes "length inp = 8" "length outp = 8"
  shows "shiftSymbolVertical inp outp shift =
           Some (map (\<lambda>k. inp ! nat ((int k - shift) mod 8)) [0..<8])"
proof -
  have "0 \<le> shift mod 8" "shift mod 8 \<le> 7" by simp_all
  then have "shiftSymbolVertical_loop inp (shift mod 8) 0 outp =
      Some (take (nat 0) outp @
            map (\<lambda>k. inp ! nat ((int k - shift mod 8) mod 8)) [nat 0..<8])"
    using assms by (intro shiftSymbolVertical_loop_eq) simp_all
  then have "shiftSymbolVertical inp outp shift =
      Some (map (\<lambda>k. inp ! nat ((int k - shift mod 8) mod 8)) [0..<8])"
    by (simp add: shiftSymbolVertical_def normalize_shift_mod)
  then show ?thesis by (simp add: mod_diff_right_eq)
qed

text \<open>The vertical shift is a rotation of the list of rows.\<close>

lemma rows_rotate:
  assumes "length inp = 8"
  shows "map (\<lambda>k. inp ! nat ((int k - shift) mod 8)) [0..<8] =
         rotate (nat ((- shift) mod 8)) inp"
proof (rule nth_equalityI)
  show "length (map (\<lambda>k. inp ! nat ((int k - shift) mod 8)) [0..<8]) =
        length (rotate (nat ((- shift) mod 8)) inp)"
    using assms by simp
next
  fix i assume "i < length (map (\<lambda>k. inp ! nat ((int k - shift) mod 8)) [0..<8])"
  then have i: "i < 8" by simp
  have "int ((nat ((- shift) mod 8) + i) mod 8) = (int i + (- shift) mod 8) mod 8"
    by (simp add: zmod_int add.commute)
  also have "\<dots> = (int i - shift) mod 8"
    by (simp add: mod_add_right_eq)
  finally have "nat ((int i - shift) mod 8) = (nat ((- shift) mod 8) + i) mod 8"
    by simp
  then show "map (\<lambda>k. inp ! nat ((int k - shift) mod 8)) [0..<8] ! i =
        rotate (nat ((- shift) mod 8)) inp ! i"
    using i assms by (simp add: nth_rotate add.commute del: upt_Suc)
qed

lemma shiftSymbolVertical_rotate:
  assumes "length inp = 8" "length outp = 8"
  shows "shiftSymbolVertical inp outp shift = Some (rotate (nat ((- shift) mod 8)) inp)"
  using assms by (simp only: shiftSymbolVertical_eq rows_rotate)

section \<open>The vertical shift\<close>

text \<open>
  C1.  \<open>shiftSymbolVertical\<close> is total: for every symbol of eight rows, every output
  buffer of eight rows and every integer \<open>shift\<close>, the effective shift
  \<open>((shift % 8) + 8) % 8\<close> of the code is \<open>((shift mod 8) + 8) mod 8\<close>, it lies between 0
  and 7, the call returns, and row \<open>r\<close> of the output is row
  \<open>(r - effective shift + 8) mod 8\<close> of the input.
\<close>

theorem shiftSymbolVertical_total:
  assumes "length inp = 8" "length outp = 8"
  shows "normalize_shift shift = ((shift mod 8) + 8) mod 8
       \<and> 0 \<le> normalize_shift shift \<and> normalize_shift shift \<le> 7
       \<and> (\<exists>res. shiftSymbolVertical inp outp shift = Some res \<and> length res = 8
            \<and> (\<forall>r<8. res ! r = inp ! nat ((int r - normalize_shift shift + 8) mod 8)))"
proof -
  have "normalize_shift shift = ((shift mod 8) + 8) mod 8"
    by (simp add: normalize_shift_mod)
  moreover have "0 \<le> normalize_shift shift" "normalize_shift shift \<le> 7"
    by (simp_all add: normalize_shift_mod)
  moreover have "map (\<lambda>k. inp ! nat ((int k - shift) mod 8)) [0..<8] ! r =
                 inp ! nat ((int r - normalize_shift shift + 8) mod 8)" if "r < 8" for r
    using that by (simp add: normalize_shift_mod mod_diff_right_eq del: upt_Suc)
  ultimately show ?thesis
    using assms by (simp add: shiftSymbolVertical_eq del: upt_Suc)
qed

theorem shiftSymbolVertical_total_witness:
  "\<exists>res. shiftSymbolVertical [1, 2, 3, 4, 5, 6, 7, 8] [0, 0, 0, 0, 0, 0, 0, 0] (-13) = Some res
     \<and> res ! 0 = 6 \<and> res ! 7 = 5"
proof -
  have "normalize_shift (-13) = 3"
    by (simp add: normalize_shift_def smod_int_alt_def)
  with shiftSymbolVertical_total [of "[1, 2, 3, 4, 5, 6, 7, 8]" "[0, 0, 0, 0, 0, 0, 0, 0]" "-13"]
  show ?thesis by auto
qed

lemma rotate_amount_add:
  "(nat ((- b) mod 8) + nat ((- a) mod 8)) mod 8 = nat ((- (a + b)) mod (8::int))"
proof -
  have "int ((nat ((- b) mod 8) + nat ((- a) mod 8)) mod 8) = ((- b) mod 8 + (- a) mod 8) mod 8"
    by (simp add: zmod_int)
  also have "\<dots> = (- (a + b)) mod 8"
    by (simp add: mod_add_eq add.commute)
  finally show ?thesis by linarith
qed

text \<open>
  C5.  Two vertical shifts compose to the vertical shift by the sum: for every symbol of
  eight rows and all integers \<open>a\<close> and \<open>b\<close>, shifting by \<open>a\<close> and then the result by
  \<open>b\<close> gives the symbol that shifting by \<open>a + b\<close> gives, whatever the output buffers held
  before.
\<close>

theorem shiftSymbolVertical_compose:
  assumes "length inp = 8" "length out1 = 8" "length out2 = 8" "length out3 = 8"
  shows "\<exists>mid res. shiftSymbolVertical inp out1 a = Some mid
           \<and> shiftSymbolVertical mid out2 b = Some res
           \<and> shiftSymbolVertical inp out3 (a + b) = Some res"
proof -
  let ?mid = "rotate (nat ((- a) mod 8)) inp"
  let ?res = "rotate (nat ((- b) mod 8)) ?mid"
  have 1: "shiftSymbolVertical inp out1 a = Some ?mid"
    using assms by (simp add: shiftSymbolVertical_rotate)
  have 2: "shiftSymbolVertical ?mid out2 b = Some ?res"
    using assms by (simp add: shiftSymbolVertical_rotate)
  have "?res = rotate ((nat ((- b) mod 8) + nat ((- a) mod 8)) mod length inp) inp"
    by (simp only: rotate_rotate rotate_conv_mod [symmetric])
  also have "\<dots> = rotate (nat ((- (a + b)) mod 8)) inp"
    using assms by (simp only: rotate_amount_add)
  finally have 3: "shiftSymbolVertical inp out3 (a + b) = Some ?res"
    using assms by (simp add: shiftSymbolVertical_rotate)
  from 1 2 3 show ?thesis by blast
qed

theorem shiftSymbolVertical_compose_witness:
  "\<exists>mid res. shiftSymbolVertical [1, 2, 3, 4, 5, 6, 7, 8] [0, 0, 0, 0, 0, 0, 0, 0] 5 = Some mid
     \<and> shiftSymbolVertical mid [9, 9, 9, 9, 9, 9, 9, 9] (-2) = Some res
     \<and> shiftSymbolVertical [1, 2, 3, 4, 5, 6, 7, 8] [7, 7, 7, 7, 7, 7, 7, 7] (5 + (-2)) = Some res"
  using shiftSymbolVertical_compose [of "[1, 2, 3, 4, 5, 6, 7, 8]" "[0, 0, 0, 0, 0, 0, 0, 0]"
      "[9, 9, 9, 9, 9, 9, 9, 9]" "[7, 7, 7, 7, 7, 7, 7, 7]" 5 "-2"]
  by simp

text \<open>
  C6.  The vertical shift is periodic: for every symbol of eight rows and every integer
  \<open>s\<close>, the shift by \<open>s\<close> returns and gives the same symbol as the shift by \<open>s mod 8\<close>
  (with the remainder of mathematics or with the truncating remainder of C) and as the
  shift by \<open>s + 8 * k\<close>, for every integer \<open>k\<close>.
\<close>

theorem shiftSymbolVertical_periodic:
  assumes "length inp = 8" "length out1 = 8" "length out2 = 8"
  shows "shiftSymbolVertical inp out1 s \<noteq> None
       \<and> shiftSymbolVertical inp out1 s = shiftSymbolVertical inp out2 (s mod 8)
       \<and> shiftSymbolVertical inp out1 s = shiftSymbolVertical inp out2 (s smod 8)
       \<and> shiftSymbolVertical inp out1 s = shiftSymbolVertical inp out2 (s + 8 * k)"
proof -
  have a: "(- (s mod 8)) mod 8 = (- s) mod 8"
    by (simp add: mod_minus_eq)
  have b: "(- (s smod 8)) mod 8 = (- s) mod 8"
    by (cases "0 \<le> s") (simp_all add: smod_8_nonneg smod_8_neg mod_minus_eq)
  have "(- (s + 8 * k)) mod 8 = (- s + 8 * (- k)) mod 8" by simp
  also have "\<dots> = (- s) mod 8" by (simp only: mod_mult_self2)
  finally have c: "(- s - 8 * k) mod 8 = (- s) mod 8" by simp
  show ?thesis
    using assms by (simp add: shiftSymbolVertical_rotate a b c)
qed

theorem shiftSymbolVertical_periodic_witness:
  "shiftSymbolVertical [1, 2, 3, 4, 5, 6, 7, 8] [0, 0, 0, 0, 0, 0, 0, 0] (-13) \<noteq> None
     \<and> shiftSymbolVertical [1, 2, 3, 4, 5, 6, 7, 8] [0, 0, 0, 0, 0, 0, 0, 0] (-13) =
         shiftSymbolVertical [1, 2, 3, 4, 5, 6, 7, 8] [9, 9, 9, 9, 9, 9, 9, 9] ((-13) mod 8)
     \<and> shiftSymbolVertical [1, 2, 3, 4, 5, 6, 7, 8] [0, 0, 0, 0, 0, 0, 0, 0] (-13) =
         shiftSymbolVertical [1, 2, 3, 4, 5, 6, 7, 8] [9, 9, 9, 9, 9, 9, 9, 9] ((-13) smod 8)
     \<and> shiftSymbolVertical [1, 2, 3, 4, 5, 6, 7, 8] [0, 0, 0, 0, 0, 0, 0, 0] (-13) =
         shiftSymbolVertical [1, 2, 3, 4, 5, 6, 7, 8] [9, 9, 9, 9, 9, 9, 9, 9] (-13 + 8 * 4)"
proof -
  have "length [1, 2, 3, 4, 5, 6, 7, 8 :: uint8_t] = 8"
    "length [0, 0, 0, 0, 0, 0, 0, 0 :: uint8_t] = 8"
    "length [9, 9, 9, 9, 9, 9, 9, 9 :: uint8_t] = 8"
    by simp_all
  then show ?thesis by (rule shiftSymbolVertical_periodic)
qed

text \<open>
  C7.  For every symbol of eight rows, the vertical shift by 0 and the vertical shift by 8
  both give the symbol itself.
\<close>

theorem shiftSymbolVertical_identity:
  assumes "length inp = 8" "length outp = 8"
  shows "shiftSymbolVertical inp outp 0 = Some inp \<and> shiftSymbolVertical inp outp 8 = Some inp"
  using assms by (simp add: shiftSymbolVertical_rotate)

theorem shiftSymbolVertical_identity_witness:
  "shiftSymbolVertical [1, 2, 3, 4, 5, 6, 7, 8] [0, 0, 0, 0, 0, 0, 0, 0] 0 =
     Some [1, 2, 3, 4, 5, 6, 7, 8]
   \<and> shiftSymbolVertical [1, 2, 3, 4, 5, 6, 7, 8] [0, 0, 0, 0, 0, 0, 0, 0] 8 =
     Some [1, 2, 3, 4, 5, 6, 7, 8]"
  using shiftSymbolVertical_identity [of "[1, 2, 3, 4, 5, 6, 7, 8]" "[0, 0, 0, 0, 0, 0, 0, 0]"]
  by simp

section \<open>The horizontal shift\<close>

lemma rotl_column:
  assumes "n \<le> 7" "c < 8"
  shows "bit (word_rotl n row) ((c + n) mod 8) = bit (row :: uint8_t) c"
proof -
  have "((c + n) mod 8 + (8 - n)) mod 8 = (c + n + (8 - n)) mod 8"
    by (simp only: mod_add_left_eq)
  also have "c + n + (8 - n) = c + 8" using assms by simp
  also have "(c + 8) mod 8 = c" using assms by simp
  finally have "((c + n) mod 8 + (8 - n)) mod 8 = c" .
  then show ?thesis using assms by (simp add: bit_word_rotl_iff)
qed

lemma rotl_inverse:
  assumes "1 \<le> n" "n \<le> 7"
  shows "word_rotl (8 - n) (word_rotl n row) = (row :: uint8_t)"
proof -
  have "8 - (8 - n) mod 8 = n" using assms by simp
  then have "word_rotl (8 - n) (word_rotl n row) = word_rotr n (word_rotl n row)"
    by (simp add: word_rotl_eq_word_rotr [of "8 - n"])
  then show ?thesis by simp
qed

text \<open>
  C2.  For every symbol of eight rows and every \<open>shift\<close> from 0 to 7, row \<open>r\<close> of the
  output of \<open>shiftSymbolHorizontal\<close> is row \<open>r\<close> of the input rotated left by \<open>shift\<close>
  bits, and nothing else: the pixel at column \<open>c\<close> of a row (bit \<open>c\<close>, column 0 the
  lowest bit) is at column \<open>(c + shift) mod 8\<close> of the same row of the output.
\<close>

theorem shiftSymbolHorizontal_rotates:
  assumes "16 \<le> w" "0 \<le> shift" "shift \<le> 7" "length inp = 8" "length outp = 8"
  shows "\<exists>res. shiftSymbolHorizontal w inp outp shift = Some res \<and> length res = 8
           \<and> (\<forall>r<8. res ! r = word_rotl (nat shift) (inp ! r)
                 \<and> (\<forall>c<8. bit (res ! r) ((c + nat shift) mod 8) = bit (inp ! r) c))"
proof -
  have "nat shift \<le> 7" using assms by simp
  then show ?thesis
    using assms by (simp add: shiftSymbolHorizontal_eq rotl_column)
qed

theorem shiftSymbolHorizontal_rotates_witness:
  "\<exists>res. shiftSymbolHorizontal 16 [1, 0, 0, 0, 0, 0, 0, 0] [9, 9, 9, 9, 9, 9, 9, 9] 7 = Some res
     \<and> res ! 0 = word_rotl 7 1 \<and> bit (res ! 0) 7 \<and> res ! 1 = word_rotl 7 0"
proof -
  from shiftSymbolHorizontal_rotates [of 16 7 "[1, 0, 0, 0, 0, 0, 0, 0]" "[9, 9, 9, 9, 9, 9, 9, 9]"]
  obtain res where res:
    "shiftSymbolHorizontal 16 [1, 0, 0, 0, 0, 0, 0, 0] [9, 9, 9, 9, 9, 9, 9, 9] 7 = Some res"
    "\<forall>r<8. res ! r = word_rotl 7 ([1, 0, 0, 0, 0, 0, 0, 0] ! r) \<and>
       (\<forall>c<8. bit (res ! r) ((c + 7) mod 8) = bit ([1, 0, 0, 0, 0, 0, 0, 0 :: uint8_t] ! r) c)"
    by auto
  have lt: "(0::nat) < 8" "(1::nat) < 8" by simp_all
  note row0 = spec [OF res(2), of 0, THEN mp, OF lt(1)]
  note row1 = spec [OF res(2), of 1, THEN mp, OF lt(2)]
  have r0: "res ! 0 = word_rotl 7 1"
    using row0 [THEN conjunct1] by simp
  have r1: "res ! 1 = word_rotl 7 0"
    using row1 [THEN conjunct1] by simp
  have "bit (res ! 0) 7"
    using row0 [THEN conjunct2, THEN spec, of 0] by simp
  with res(1) r0 r1 show ?thesis by simp
qed

text \<open>
  C3.  For \<open>shift\<close> from 0 to 7 the horizontal shift never fails: on every symbol of
  eight rows the call returns, and for every row both shifts of the expression are
  defined.  In particular, for \<open>shift = 0\<close> the right shift is by \<open>8 - 0 = 8\<close> bits, which
  is less than the width of the promoted row, and its value is 0.
\<close>

theorem shiftSymbolHorizontal_never_fails:
  assumes "16 \<le> w" "0 \<le> shift" "shift \<le> 7" "length inp = 8" "length outp = 8"
  shows "shiftSymbolHorizontal w inp outp shift \<noteq> None
       \<and> c_shl w (promote row) shift \<noteq> None
       \<and> c_shr w (promote row) (8 - shift) \<noteq> None
       \<and> rotate_row w row shift \<noteq> None
       \<and> c_shr w (promote row) (8 - 0) = Some 0"
proof -
  have "uint row div 2 ^ 8 = 0" using uint_bounded [of row] by simp
  then have "c_shr w (promote row) (8 - 0) = Some 0"
    using assms(1) by (simp add: c_shr_def promote_def)
  then show ?thesis
    using assms by (simp add: shiftSymbolHorizontal_eq c_shl_row c_shr_row rotate_row_rotl)
qed

theorem shiftSymbolHorizontal_never_fails_witness:
  "shiftSymbolHorizontal 16 [255, 129, 3, 0, 0, 0, 0, 0] [9, 9, 9, 9, 9, 9, 9, 9] 0 \<noteq> None
     \<and> c_shr 16 (promote 255) (8 - 0) = Some 0"
  using shiftSymbolHorizontal_never_fails [of 16 0 "[255, 129, 3, 0, 0, 0, 0, 0]"
      "[9, 9, 9, 9, 9, 9, 9, 9]" 255]
  by simp

text \<open>
  C4.  For every symbol of eight rows and every \<open>shift\<close> from 1 to 7, the horizontal
  shift by \<open>shift\<close> followed by the horizontal shift by \<open>8 - shift\<close> gives the symbol
  back; and the horizontal shift by 0 gives the symbol itself.
\<close>

theorem shiftSymbolHorizontal_round_trip:
  assumes "16 \<le> w" "length inp = 8" "length out1 = 8" "length out2 = 8"
  shows "(1 \<le> shift \<and> shift \<le> 7 \<longrightarrow>
            (\<exists>mid. shiftSymbolHorizontal w inp out1 shift = Some mid
               \<and> shiftSymbolHorizontal w mid out2 (8 - shift) = Some inp))
       \<and> shiftSymbolHorizontal w inp out1 0 = Some inp"
proof (intro conjI impI)
  assume s: "1 \<le> shift \<and> shift \<le> 7"
  let ?mid = "map (word_rotl (nat shift)) inp"
  have n: "1 \<le> nat shift" "nat shift \<le> 7" "nat (8 - shift) = 8 - nat shift"
    using s by auto
  have "shiftSymbolHorizontal w inp out1 shift = Some ?mid"
    using assms s by (simp add: shiftSymbolHorizontal_eq)
  moreover have "shiftSymbolHorizontal w ?mid out2 (8 - shift) =
                   Some (map (word_rotl (nat (8 - shift))) ?mid)"
    using assms s by (intro shiftSymbolHorizontal_eq) simp_all
  moreover have "map (word_rotl (nat (8 - shift))) ?mid = inp"
    using n by (simp add: rotl_inverse comp_def)
  ultimately show "\<exists>mid. shiftSymbolHorizontal w inp out1 shift = Some mid
               \<and> shiftSymbolHorizontal w mid out2 (8 - shift) = Some inp"
    by simp
next
  have "word_rotl 0 = (\<lambda>row :: uint8_t. row)"
    by (rule ext, rule bit_word_eqI) (simp add: bit_word_rotl_iff)
  then show "shiftSymbolHorizontal w inp out1 0 = Some inp"
    using assms by (simp add: shiftSymbolHorizontal_eq)
qed

theorem shiftSymbolHorizontal_round_trip_witness:
  "(\<exists>mid. shiftSymbolHorizontal 16 [255, 129, 3, 0, 0, 0, 0, 1] [9, 9, 9, 9, 9, 9, 9, 9] 3 = Some mid
      \<and> shiftSymbolHorizontal 16 mid [7, 7, 7, 7, 7, 7, 7, 7] (8 - 3) = Some [255, 129, 3, 0, 0, 0, 0, 1])
   \<and> shiftSymbolHorizontal 16 [255, 129, 3, 0, 0, 0, 0, 1] [9, 9, 9, 9, 9, 9, 9, 9] 0 =
        Some [255, 129, 3, 0, 0, 0, 0, 1]"
  using shiftSymbolHorizontal_round_trip [of 16 "[255, 129, 3, 0, 0, 0, 0, 1]"
      "[9, 9, 9, 9, 9, 9, 9, 9]" "[7, 7, 7, 7, 7, 7, 7, 7]" 3]
  by simp

section \<open>The two shifts together\<close>

text \<open>
  C10.  The two shifts commute: for every symbol of eight rows, every \<open>h\<close> from 0 to 7
  and every integer \<open>v\<close>, the horizontal shift by \<open>h\<close> of the vertical shift by \<open>v\<close> is
  the vertical shift by \<open>v\<close> of the horizontal shift by \<open>h\<close>.
\<close>

theorem shifts_commute:
  assumes "16 \<le> w" "0 \<le> h" "h \<le> 7"
    and "length inp = 8" "length out1 = 8" "length out2 = 8" "length out3 = 8" "length out4 = 8"
  shows "\<exists>a b res. shiftSymbolVertical inp out1 v = Some a
           \<and> shiftSymbolHorizontal w a out2 h = Some res
           \<and> shiftSymbolHorizontal w inp out3 h = Some b
           \<and> shiftSymbolVertical b out4 v = Some res"
proof -
  let ?k = "nat ((- v) mod 8)"
  let ?a = "rotate ?k inp"
  let ?b = "map (word_rotl (nat h)) inp"
  have "shiftSymbolVertical inp out1 v = Some ?a"
    using assms by (simp add: shiftSymbolVertical_rotate)
  moreover have "shiftSymbolHorizontal w ?a out2 h = Some (map (word_rotl (nat h)) ?a)"
    using assms by (intro shiftSymbolHorizontal_eq) simp_all
  moreover have "shiftSymbolHorizontal w inp out3 h = Some ?b"
    using assms by (simp add: shiftSymbolHorizontal_eq)
  moreover have "shiftSymbolVertical ?b out4 v = Some (rotate ?k ?b)"
    using assms by (intro shiftSymbolVertical_rotate) simp_all
  moreover have "rotate ?k ?b = map (word_rotl (nat h)) ?a"
    by (simp only: rotate_map)
  ultimately show ?thesis by simp
qed

theorem shifts_commute_witness:
  "\<exists>a b res. shiftSymbolVertical [255, 129, 3, 0, 0, 0, 0, 1] [0, 0, 0, 0, 0, 0, 0, 0] (-3) = Some a
     \<and> shiftSymbolHorizontal 16 a [9, 9, 9, 9, 9, 9, 9, 9] 5 = Some res
     \<and> shiftSymbolHorizontal 16 [255, 129, 3, 0, 0, 0, 0, 1] [7, 7, 7, 7, 7, 7, 7, 7] 5 = Some b
     \<and> shiftSymbolVertical b [6, 6, 6, 6, 6, 6, 6, 6] (-3) = Some res"
  using shifts_commute [of 16 5 "[255, 129, 3, 0, 0, 0, 0, 1]" "[0, 0, 0, 0, 0, 0, 0, 0]"
      "[9, 9, 9, 9, 9, 9, 9, 9]" "[7, 7, 7, 7, 7, 7, 7, 7]" "[6, 6, 6, 6, 6, 6, 6, 6]" "-3"]
  by simp

section \<open>Lit pixels are preserved\<close>

lemma sum_list_rotate: "sum_list (map f (rotate n xs)) = (sum_list (map f xs) :: nat)"
proof -
  let ?k = "n mod length xs"
  have "sum_list (map f (rotate n xs)) = sum_list (map f (drop ?k xs @ take ?k xs))"
    by (simp only: rotate_drop_take)
  also have "\<dots> = sum_list (map f (take ?k xs @ drop ?k xs))"
    by (simp only: map_append sum_list_append add.commute)
  finally show ?thesis by simp
qed

lemma length_filter_sum: "length (filter P xs) = sum_list (map (\<lambda>x. if P x then 1 else 0) xs)"
  by (induction xs) simp_all

lemma bits_rotl:
  "map (bit (word_rotl n row)) [0..<8] = rotate (8 - n mod 8) (map (bit (row :: uint8_t)) [0..<8])"
proof (rule nth_equalityI)
  show "length (map (bit (word_rotl n row)) [0..<8]) =
        length (rotate (8 - n mod 8) (map (bit row) [0..<8]))"
    by simp
next
  fix i assume "i < length (map (bit (word_rotl n row)) [0..<8])"
  then have i: "i < 8" by simp
  let ?j = "(8 - n mod 8 + i) mod 8"
  have j: "?j < 8" by simp
  have "map (bit (word_rotl n row)) [0..<8] ! i = bit (word_rotl n row) i"
    using i by (simp del: upt_Suc)
  also have "\<dots> = bit row ?j"
    using i by (simp only: bit_word_rotl_iff add.commute [of i]) simp
  also have "\<dots> = map (bit row) [0..<8] ! ?j"
    using j by (simp del: upt_Suc)
  also have "\<dots> = rotate (8 - n mod 8) (map (bit row) [0..<8]) ! i"
    using i by (simp add: nth_rotate del: upt_Suc)
  finally show "map (bit (word_rotl n row)) [0..<8] ! i =
        rotate (8 - n mod 8) (map (bit row) [0..<8]) ! i" .
qed

lemma popcount_rotl: "popcount (word_rotl n row) = popcount row"
proof -
  have "popcount r = sum_list (map (\<lambda>b. if b then 1 else 0) (map (bit r) [0..<8]))" for r :: uint8_t
    by (simp add: popcount_def length_filter_sum comp_def del: upt_Suc)
  then show ?thesis
    by (simp only: bits_rotl sum_list_rotate)
qed

lemma lit_pixels_rotl: "lit_pixels (map (word_rotl n) rows) = lit_pixels rows"
  by (simp add: lit_pixels_def comp_def popcount_rotl)

lemma lit_pixels_rotate: "lit_pixels (rotate n rows) = lit_pixels rows"
  by (simp add: lit_pixels_def sum_list_rotate)

text \<open>
  C9.  Both shifts preserve the number of lit pixels: for every symbol of eight rows, the
  sum of the population counts of the eight output rows is that of the eight input rows,
  for the horizontal shift by any \<open>h\<close> from 0 to 7 and for the vertical shift by any
  integer \<open>v\<close>.
\<close>

theorem lit_pixels_preserved:
  assumes "length inp = 8" "length out1 = 8" "length out2 = 8"
  shows "(16 \<le> w \<and> 0 \<le> h \<and> h \<le> 7 \<longrightarrow>
            (\<exists>res. shiftSymbolHorizontal w inp out1 h = Some res
               \<and> lit_pixels res = lit_pixels inp))
       \<and> (\<exists>res. shiftSymbolVertical inp out2 v = Some res \<and> lit_pixels res = lit_pixels inp)"
  using assms
  by (simp add: shiftSymbolHorizontal_eq shiftSymbolVertical_rotate lit_pixels_rotl
      lit_pixels_rotate)

theorem lit_pixels_preserved_witness:
  "(\<exists>res. shiftSymbolHorizontal 16 [255, 129, 3, 0, 0, 0, 0, 1] [9, 9, 9, 9, 9, 9, 9, 9] 3 = Some res
      \<and> lit_pixels res = lit_pixels [255, 129, 3, 0, 0, 0, 0, 1])
   \<and> (\<exists>res. shiftSymbolVertical [255, 129, 3, 0, 0, 0, 0, 1] [7, 7, 7, 7, 7, 7, 7, 7] (-5) = Some res
      \<and> lit_pixels res = lit_pixels [255, 129, 3, 0, 0, 0, 0, 1])"
  using lit_pixels_preserved [of "[255, 129, 3, 0, 0, 0, 0, 1]" "[9, 9, 9, 9, 9, 9, 9, 9]"
      "[7, 7, 7, 7, 7, 7, 7, 7]" 16 3 "-5"]
  by simp

section \<open>The calls on buffers in memory\<close>

lemma buffers_disjoint:
  "buffer inp \<inter> buffer outp = {} \<longleftrightarrow> inp + 8 \<le> outp \<or> outp + 8 \<le> inp"
  by (auto simp: buffer_def ivl_disj_int)

lemma shiftSymbolHorizontal_mem_loop_eq:
  assumes "\<And>row. rotate_row w row shift = Some (g row)"
    and "inp + 8 \<le> outp \<or> outp + 8 \<le> inp" "0 \<le> r" "r \<le> 8"
  shows "shiftSymbolHorizontal_mem_loop w inp outp shift r m =
           Some (\<lambda>a. if outp + nat r \<le> a \<and> a < outp + 8
                      then g (m (inp + (a - outp))) else m a)"
  using assms
proof (induction w inp outp shift r m rule: shiftSymbolHorizontal_mem_loop.induct)
  case (1 w inp outp shift r m)
  show ?case
  proof (cases "r < 8")
    case False
    with 1 show ?thesis
      by (subst shiftSymbolHorizontal_mem_loop.simps) (auto simp: fun_eq_iff)
  next
    case True
    let ?n = "nat r"
    let ?v = "g (m (inp + ?n))"
    let ?m' = "m(outp + ?n := ?v)"
    have n: "?n < 8" "nat (r + 1) = Suc ?n" using True 1 by simp_all
    have get: "mem_get m inp r = Some (m (inp + ?n))"
      using True 1 by (simp add: mem_get_def)
    have set: "mem_set m outp r ?v = Some ?m'"
      using True 1 by (simp add: mem_set_def)
    have IH: "shiftSymbolHorizontal_mem_loop w inp outp shift (r + 1) ?m' =
            Some (\<lambda>a. if outp + nat (r + 1) \<le> a \<and> a < outp + 8
                       then g (?m' (inp + (a - outp))) else ?m' a)"
      using True 1(2-) by (intro "1.IH" [OF True get "1.prems"(1) set]) simp_all
    have eq: "(\<lambda>a. if outp + nat (r + 1) \<le> a \<and> a < outp + 8
                     then g (?m' (inp + (a - outp))) else ?m' a) =
               (\<lambda>a. if outp + ?n \<le> a \<and> a < outp + 8
                     then g (m (inp + (a - outp))) else m a)"
      using n 1(3) by (auto simp: fun_eq_iff)
    have "shiftSymbolHorizontal_mem_loop w inp outp shift (r + 1) ?m' =
            Some (\<lambda>a. if outp + ?n \<le> a \<and> a < outp + 8
                       then g (m (inp + (a - outp))) else m a)"
      by (simp only: IH eq)
    then show ?thesis
      using True get set 1(2)
      by (subst shiftSymbolHorizontal_mem_loop.simps) simp
  qed
qed

lemma shiftSymbolVertical_mem_loop_eq:
  assumes "inp + 8 \<le> outp \<or> outp + 8 \<le> inp" "0 \<le> s" "s \<le> 7" "0 \<le> r" "r \<le> 8"
  shows "shiftSymbolVertical_mem_loop inp outp s r m =
           Some (\<lambda>a. if outp + nat r \<le> a \<and> a < outp + 8
                      then m (inp + nat ((int (a - outp) - s) mod 8)) else m a)"
  using assms
proof (induction inp outp s r m rule: shiftSymbolVertical_mem_loop.induct)
  case (1 inp outp s r m)
  show ?case
  proof (cases "r < 8")
    case False
    with 1 show ?thesis
      by (subst shiftSymbolVertical_mem_loop.simps) (auto simp: fun_eq_iff)
  next
    case True
    let ?n = "nat r"
    let ?v = "m (inp + nat ((int ?n - s) mod 8))"
    let ?m' = "m(outp + ?n := ?v)"
    have n: "?n < 8" "nat (r + 1) = Suc ?n" "int ?n = r" using True 1 by simp_all
    have idx: "nat ((k - s) mod 8) < 8" for k by simp
    have get: "mem_get m inp ((r - s + 8) smod 8) = Some ?v"
      using True 1 by (simp add: mem_get_def row_index)
    have set: "mem_set m outp r ?v = Some ?m'"
      using True 1 by (simp add: mem_set_def)
    have IH: "shiftSymbolVertical_mem_loop inp outp s (r + 1) ?m' =
            Some (\<lambda>a. if outp + nat (r + 1) \<le> a \<and> a < outp + 8
                       then ?m' (inp + nat ((int (a - outp) - s) mod 8)) else ?m' a)"
      using True 1(2-) by (intro "1.IH" [OF True get set]) simp_all
    have eq: "(\<lambda>a. if outp + nat (r + 1) \<le> a \<and> a < outp + 8
                     then ?m' (inp + nat ((int (a - outp) - s) mod 8)) else ?m' a) =
               (\<lambda>a. if outp + ?n \<le> a \<and> a < outp + 8
                      then m (inp + nat ((int (a - outp) - s) mod 8)) else m a)"
    proof (rule ext)
      fix a
      have "inp + nat ((int (a - outp) - s) mod 8) \<noteq> outp + ?n"
        using n(1) 1(2) idx [of "int (a - outp)"] by linarith
      moreover have "a = outp + ?n \<Longrightarrow> a - outp = ?n" by simp
      ultimately show "(if outp + nat (r + 1) \<le> a \<and> a < outp + 8
                     then ?m' (inp + nat ((int (a - outp) - s) mod 8)) else ?m' a) =
               (if outp + ?n \<le> a \<and> a < outp + 8
                      then m (inp + nat ((int (a - outp) - s) mod 8)) else m a)"
        using n by (auto simp del: of_nat_diff)
    qed
    have "shiftSymbolVertical_mem_loop inp outp s (r + 1) ?m' =
            Some (\<lambda>a. if outp + ?n \<le> a \<and> a < outp + 8
                       then m (inp + nat ((int (a - outp) - s) mod 8)) else m a)"
      by (simp only: IH eq)
    then show ?thesis
      using True get set
      by (subst shiftSymbolVertical_mem_loop.simps) (simp only: if_True bind.bind_lunit)
  qed
qed

lemma shiftSymbolHorizontal_mem_eq:
  assumes "16 \<le> w" "0 \<le> shift" "shift \<le> 7" "inp + 8 \<le> outp \<or> outp + 8 \<le> inp"
  shows "shiftSymbolHorizontal_mem w inp outp shift m =
           Some (\<lambda>a. if outp \<le> a \<and> a < outp + 8
                      then word_rotl (nat shift) (m (inp + (a - outp))) else m a)"
proof -
  have "shiftSymbolHorizontal_mem_loop w inp outp shift 0 m =
           Some (\<lambda>a. if outp + nat 0 \<le> a \<and> a < outp + 8
                      then word_rotl (nat shift) (m (inp + (a - outp))) else m a)"
    using assms by (intro shiftSymbolHorizontal_mem_loop_eq rotate_row_rotl) simp_all
  then show ?thesis by (simp add: shiftSymbolHorizontal_mem_def)
qed

lemma shiftSymbolVertical_mem_eq:
  assumes "inp + 8 \<le> outp \<or> outp + 8 \<le> inp"
  shows "shiftSymbolVertical_mem inp outp shift m =
           Some (\<lambda>a. if outp \<le> a \<and> a < outp + 8
                      then m (inp + nat ((int (a - outp) - shift) mod 8)) else m a)"
proof -
  have "0 \<le> shift mod 8" "shift mod 8 \<le> 7" by simp_all
  then have "shiftSymbolVertical_mem_loop inp outp (shift mod 8) 0 m =
           Some (\<lambda>a. if outp + nat 0 \<le> a \<and> a < outp + 8
                      then m (inp + nat ((int (a - outp) - shift mod 8) mod 8)) else m a)"
    using assms by (intro shiftSymbolVertical_mem_loop_eq) simp_all
  moreover have "(int k - shift mod 8) mod 8 = (int k - shift) mod 8" for k
    by (simp only: mod_diff_right_eq)
  ultimately show ?thesis
    by (simp only: shiftSymbolVertical_mem_def normalize_shift_mod nat_0 add_0_right)
qed

text \<open>
  What a call leaves in memory, for any new contents \<open>F\<close> of the output buffer.
\<close>

lemma written_buffer:
  assumes "inp + 8 \<le> outp \<or> outp + 8 \<le> inp"
    and "m' = (\<lambda>a. if outp \<le> a \<and> a < outp + 8 then F (a - outp) else m a)"
  shows "\<forall>a. a \<notin> buffer outp \<longrightarrow> m' a = m a"
    and "symbol_at m' inp = symbol_at m inp"
    and "symbol_at m' outp = map F [0..<8]"
proof -
  show "\<forall>a. a \<notin> buffer outp \<longrightarrow> m' a = m a"
    using assms(2) by (simp add: buffer_def)
  have "m' (inp + i) = m (inp + i)" if "i < 8" for i
    using that assms by auto
  then show "symbol_at m' inp = symbol_at m inp"
    by (simp add: symbol_at_def del: upt_Suc)
  have "m' (outp + i) = F i" if "i < 8" for i
    using that assms(2) by simp
  then show "symbol_at m' outp = map F [0..<8]"
    by (simp add: symbol_at_def del: upt_Suc)
qed

lemma length_symbol_at: "length (symbol_at m p) = 8"
  by (simp add: symbol_at_def)

lemma nth_symbol_at: "i < 8 \<Longrightarrow> symbol_at m p ! i = m (p + i)"
  by (simp add: symbol_at_def del: upt_Suc)

text \<open>
  The buffers must not overlap: shifting a symbol vertically by one row into its own
  buffer copies the last row over all the others.
\<close>

lemma aliased_vertical:
  "map_option (\<lambda>m'. symbol_at m' 0) (shiftSymbolVertical_mem 0 0 1 (\<lambda>a. word_of_nat a)) =
     Some [7, 7, 7, 7, 7, 7, 7, 7]"
  by code_simp

text \<open>
  C8.  Frame condition.  When the input and the output buffer do not overlap, a call of
  \<open>shiftSymbolHorizontal\<close> with a shift from 0 to 7, and a call of \<open>shiftSymbolVertical\<close>
  with any integer shift, returns and changes memory only inside the output buffer: every
  byte outside it, and so the input symbol, is as before.  The eight bytes written are the
  shifted input symbol: they depend on the input symbol and the shift and on nothing else
  in memory, not even on what the output buffer held.
\<close>

theorem frame_condition:
  assumes "buffer inp \<inter> buffer outp = {}"
  shows "(16 \<le> w \<and> 0 \<le> h \<and> h \<le> 7 \<longrightarrow>
           (\<exists>m'. shiftSymbolHorizontal_mem w inp outp h m = Some m'
              \<and> (\<forall>a. a \<notin> buffer outp \<longrightarrow> m' a = m a)
              \<and> symbol_at m' inp = symbol_at m inp
              \<and> (\<forall>out0. length out0 = 8 \<longrightarrow>
                    shiftSymbolHorizontal w (symbol_at m inp) out0 h = Some (symbol_at m' outp))))
       \<and> (\<exists>m'. shiftSymbolVertical_mem inp outp v m = Some m'
              \<and> (\<forall>a. a \<notin> buffer outp \<longrightarrow> m' a = m a)
              \<and> symbol_at m' inp = symbol_at m inp
              \<and> (\<forall>out0. length out0 = 8 \<longrightarrow>
                    shiftSymbolVertical (symbol_at m inp) out0 v = Some (symbol_at m' outp)))"
proof (intro conjI impI)
  have d: "inp + 8 \<le> outp \<or> outp + 8 \<le> inp"
    using assms by (simp add: buffers_disjoint)
  {
    assume h: "16 \<le> w \<and> 0 \<le> h \<and> h \<le> 7"
    let ?F = "\<lambda>i. word_rotl (nat h) (m (inp + i))"
    let ?m' = "\<lambda>a. if outp \<le> a \<and> a < outp + 8 then ?F (a - outp) else m a"
    have run: "shiftSymbolHorizontal_mem w inp outp h m = Some ?m'"
      using h d by (simp add: shiftSymbolHorizontal_mem_eq)
    have "map ?F [0..<8] = map (word_rotl (nat h)) (symbol_at m inp)"
      by (simp add: symbol_at_def del: upt_Suc)
    then have "shiftSymbolHorizontal w (symbol_at m inp) out0 h = Some (symbol_at ?m' outp)"
      if "length out0 = 8" for out0
      using that h written_buffer(3) [where F = ?F and m = m, OF d refl]
      by (simp add: shiftSymbolHorizontal_eq length_symbol_at)
    with run written_buffer(1,2) [where F = ?F and m = m, OF d refl]
    show "\<exists>m'. shiftSymbolHorizontal_mem w inp outp h m = Some m'
              \<and> (\<forall>a. a \<notin> buffer outp \<longrightarrow> m' a = m a)
              \<and> symbol_at m' inp = symbol_at m inp
              \<and> (\<forall>out0. length out0 = 8 \<longrightarrow>
                    shiftSymbolHorizontal w (symbol_at m inp) out0 h = Some (symbol_at m' outp))"
      by blast
  }
  let ?F = "\<lambda>i. m (inp + nat ((int i - v) mod 8))"
  let ?m' = "\<lambda>a. if outp \<le> a \<and> a < outp + 8 then ?F (a - outp) else m a"
  have run: "shiftSymbolVertical_mem inp outp v m = Some ?m'"
    using d by (simp add: shiftSymbolVertical_mem_eq)
  have "nat ((int k - v) mod 8) < 8" for k by simp
  then have "map ?F [0..<8] = map (\<lambda>k. symbol_at m inp ! nat ((int k - v) mod 8)) [0..<8]"
    by (simp add: nth_symbol_at del: upt_Suc)
  then have "shiftSymbolVertical (symbol_at m inp) out0 v = Some (symbol_at ?m' outp)"
    if "length out0 = 8" for out0
    using that written_buffer(3) [where F = ?F and m = m, OF d refl]
    by (simp add: shiftSymbolVertical_eq length_symbol_at del: upt_Suc)
  with run written_buffer(1,2) [where F = ?F and m = m, OF d refl]
  show "\<exists>m'. shiftSymbolVertical_mem inp outp v m = Some m'
              \<and> (\<forall>a. a \<notin> buffer outp \<longrightarrow> m' a = m a)
              \<and> symbol_at m' inp = symbol_at m inp
              \<and> (\<forall>out0. length out0 = 8 \<longrightarrow>
                    shiftSymbolVertical (symbol_at m inp) out0 v = Some (symbol_at m' outp))"
    by blast
qed

theorem frame_condition_witness:
  "(\<exists>m'. shiftSymbolHorizontal_mem 16 0 8 3 (\<lambda>a. word_of_nat a) = Some m'
      \<and> (\<forall>a. a \<notin> buffer 8 \<longrightarrow> m' a = word_of_nat a)
      \<and> symbol_at m' 0 = symbol_at (\<lambda>a. word_of_nat a) 0
      \<and> shiftSymbolHorizontal 16 (symbol_at (\<lambda>a. word_of_nat a) 0) [9, 9, 9, 9, 9, 9, 9, 9] 3 =
          Some (symbol_at m' 8))
   \<and> (\<exists>m'. shiftSymbolVertical_mem 0 8 (-5) (\<lambda>a. word_of_nat a) = Some m'
      \<and> (\<forall>a. a \<notin> buffer 8 \<longrightarrow> m' a = word_of_nat a)
      \<and> symbol_at m' 0 = symbol_at (\<lambda>a. word_of_nat a) 0
      \<and> shiftSymbolVertical (symbol_at (\<lambda>a. word_of_nat a) 0) [9, 9, 9, 9, 9, 9, 9, 9] (-5) =
          Some (symbol_at m' 8))"
proof -
  have d: "buffer 0 \<inter> buffer 8 = {}"
    by (simp add: buffers_disjoint)
  have l: "length [9, 9, 9, 9, 9, 9, 9, 9 :: uint8_t] = 8" by simp
  have w: "(16::nat) \<le> 16 \<and> (0::int) \<le> 3 \<and> (3::int) \<le> 7" by simp
  note fc = frame_condition [OF d, where w = 16 and h = 3 and v = "-5" and m = "\<lambda>a. word_of_nat a"]
  from fc [THEN conjunct1, THEN mp, OF w] l fc [THEN conjunct2] show ?thesis
    by blast
qed

end
